theory Spec2Isabelle
  imports Main "HOL-Library.Word" "HOL-Library.Sublist" "HOL-Library.Finite_Map"
begin

section \<open>The vault model of internal/vaults/model.go\<close>

text \<open>
  The development embeds the Go package \<open>vaults\<close>: the record \<open>TVault\<close> with its nested
  value types, the four methods \<open>BuildNames\<close>, \<open>BuildSymbol\<close>, \<open>BuildMigration\<close> and
  \<open>BuildAPY\<close> that mutate a vault through its pointer receiver, and the three accessors of
  the package-level index \<open>_vaultMap\<close>. A method \<open>func (t *TVault) M(x)\<close> becomes a function
  from the argument and the vault before the call to the vault after it.
\<close>

subsection \<open>Base types\<close>

text \<open>
  \<open>uint64\<close> is a 64-bit word. A \<open>float64\<close> is only ever zero-initialised or copied here, never
  computed with, so it is carried as its 64-bit IEEE pattern; the zero value is the pattern 0.
  \<open>bigNumber.Int\<close> is an unbounded integer, \<open>*bigNumber.Int\<close> an optional one.
  go-ethereum's \<open>Address\<close> is an array of 20 bytes, read here as one 160-bit word.
\<close>

type_synonym uint64 = "64 word"
type_synonym float64 = "64 word"
type_synonym float32 = "32 word"
type_synonym ethcommon_Address = "160 word"

text \<open>
  Modelled from the spec: the package \<open>common/types/common\<close> with the type \<open>common.Address\<close>
  and its conversions \<open>common.FromAddress\<close> and \<open>(Address).ToAddress\<close> is not part of the
  sources at hand. The spec knows a single notion of contract address, so \<open>common.Address\<close>
  is a wrapper around the 20-byte address, \<open>FromAddress\<close> wraps and \<open>ToAddress\<close> unwraps.
\<close>

datatype common_Address = FromAddress (ToAddress: ethcommon_Address)

text \<open>
  A \<open>*TVault\<close> held by the index: \<open>nil\<close> or the location of a vault on the heap. The accessors
  hand pointers on without dereferencing them, so the heap itself does not appear.
\<close>

datatype TVault_ptr = nil | Ref nat

subsection \<open>Strings\<close>

text \<open>
  Go strings are byte sequences, as \<open>string\<close> is. \<open>strings.HasPrefix\<close> and
  \<open>strings.HasSuffix\<close> are \<^const>\<open>prefix\<close> and \<^const>\<open>suffix\<close>. The only use of
  \<open>strings.Replace\<close> is \<open>strings.Replace(s, "\"", "", -1)\<close>: every occurrence of the one-byte
  string made of the double quote (byte 0x22) is replaced by the empty string, without limit.
\<close>

definition quote :: char where
  "quote = CHR 0x22"

definition strings_Replace_quote :: "string \<Rightarrow> string" where
  "strings_Replace_quote s = filter (\<lambda>c. c \<noteq> quote) s"

definition yVault :: string where
  "yVault = ''yVault''"

definition yv :: string where
  "yv = ''yv''"

text \<open>
  Modelled from the spec: \<open>helpers.SafeString\<close> lives in \<open>common/helpers\<close>, which is not part
  of the sources at hand. The spec describes the two chained calls as "first non-empty of",
  so \<open>SafeString(value, fallback)\<close> is \<open>value\<close> unless that is empty, and \<open>fallback\<close> then.
\<close>

definition SafeString :: "string \<Rightarrow> string \<Rightarrow> string" where
  "SafeString val fallback = (if val = [] then fallback else val)"

subsection \<open>Go maps\<close>

text \<open>
  A Go map is a finite map. Reading \<open>m[c][k]\<close> with the comma-ok form on a two-level map never
  fails: a missing outer key gives the nil inner map, and reading a nil map reports a miss.
\<close>

definition index2 :: "('c, ('k, 'v) fmap) fmap \<Rightarrow> 'c \<Rightarrow> ('k, 'v) fmap" where
  "index2 m c = (case fmlookup m c of None \<Rightarrow> fmempty | Some inner \<Rightarrow> inner)"

definition lookup2 :: "('c, ('k, 'v) fmap) fmap \<Rightarrow> 'c \<Rightarrow> 'k \<Rightarrow> 'v option" where
  "lookup2 m c k = fmlookup (index2 m c) k"

text \<open>
  A \<open>for k, v := range m\<close> statement visits every entry of \<open>m\<close> once, in an order the runtime
  picks anew for each loop. \<open>range_yields m es\<close> says that \<open>es\<close> is one such visiting sequence.
\<close>

definition range_yields :: "('k, 'v) fmap \<Rightarrow> ('k \<times> 'v) list \<Rightarrow> bool" where
  "range_yields m es \<longleftrightarrow> distinct (map fst es) \<and> fmap_of_list es = m"

subsection \<open>The value types of a vault\<close>

text \<open>
  Modelled from the spec: \<open>tokens.TERC20Token\<close> is declared in \<open>internal/tokens\<close>, which is
  not part of the sources at hand, and the spec treats the token descriptor as opaque. The
  two fields the methods read are given; whatever else the descriptor holds is the
  extension part of the record scheme.
\<close>

record TERC20Token =
  Name :: string
  Symbol :: string

record TTVL =
  TotalAssets :: "int option"
  TotalDelegatedAssets :: "int option"
  TVLDeposited :: float64
  TVLDelegated :: float64
  TVL :: float64
  Price :: float64

record TAPYFees =
  Performance :: float64
  Withdrawal :: float64
  Management :: float64
  KeepCRV :: float64
  CvxKeepCRV :: float64

record TAPYPoints =
  WeekAgo :: float64
  MonthAgo :: float64
  Inception :: float64

record TAPYComposite =
  Boost :: float64
  PoolAPY :: float64
  BoostedAPR :: float64
  BaseAPR :: float64
  CvxAPR :: float64
  RewardsAPR :: float64

record TAPY =
  Type :: string
  GrossAPR :: float64
  NetAPY :: float64
  Fees :: TAPYFees
  Points :: TAPYPoints
  Composite :: TAPYComposite

record TMigration =
  Available :: bool
  Address :: common_Address

record TVaultDetails =
  Management :: common_Address
  Governance :: common_Address
  Guardian :: common_Address
  Rewards :: common_Address
  DepositLimit :: "int option"
  AvailableDepositLimit :: "int option"
  Comment :: string
  APYTypeOverride :: string
  APYOverride :: float64
  Order :: float32
  PerformanceFee :: uint64
  ManagementFee :: uint64
  DepositsDisabled :: bool
  WithdrawalsDisabled :: bool
  AllowZapIn :: bool
  AllowZapOut :: bool
  Retired :: bool

text \<open>
  The vault itself. \<open>'tok\<close> is the unknown remainder of the token descriptor and \<open>'strat\<close> the
  opaque \<open>strategies.TStrategy\<close>. \<open>Details\<close> is a pointer that may be nil.
\<close>

record ('tok, 'strat) TVault =
  Address :: ethcommon_Address
  Registry :: ethcommon_Address
  Symbol :: string
  DisplaySymbol :: string
  FormatedSymbol :: string
  Name :: string
  DisplayName :: string
  FormatedName :: string
  Icon :: string
  Version :: string
  Type :: string
  Inception :: uint64
  Decimals :: uint64
  Endorsed :: bool
  Emergency_shutdown :: bool
  PricePerShare :: int
  Token :: "'tok TERC20Token_scheme"
  TVL :: TTVL
  APY :: TAPY
  Strategies :: "'strat list"
  Migration :: TMigration
  Details :: "TVaultDetails option"

subsection \<open>Zero values\<close>

definition TAPY_zero :: TAPY where
  "TAPY_zero =
     \<lparr>TAPY.Type = [], GrossAPR = 0, NetAPY = 0,
      Fees = \<lparr>Performance = 0, Withdrawal = 0, TAPYFees.Management = 0,
               KeepCRV = 0, CvxKeepCRV = 0\<rparr>,
      Points = \<lparr>WeekAgo = 0, MonthAgo = 0, TAPYPoints.Inception = 0\<rparr>,
      Composite = \<lparr>Boost = 0, PoolAPY = 0, BoostedAPR = 0, BaseAPR = 0,
                    CvxAPR = 0, RewardsAPR = 0\<rparr>\<rparr>"

definition TMigration_zero :: TMigration where
  "TMigration_zero = \<lparr>Available = False, TMigration.Address = FromAddress 0\<rparr>"

subsection \<open>The naming methods\<close>

definition BuildNames ::
  "string \<Rightarrow> ('tok, 'strat) TVault \<Rightarrow> ('tok, 'strat) TVault" where
  "BuildNames metaVaultName t =
     (let name = strings_Replace_quote (TVault.Name t);
          displayName = TVault.Name t;
          formatedName = TERC20Token.Name (Token t);
          displayName = (if metaVaultName \<noteq> [] then metaVaultName else displayName);
          formatedName = (if \<not> suffix yVault formatedName
                          then formatedName @ '' yVault'' else formatedName);
          formatedName = (if displayName \<noteq> [] \<and> \<not> suffix yVault displayName
                          then displayName @ '' yVault'' else formatedName);
          name = (if name = [] then displayName else name);
          name = (if name = [] then formatedName else name)
      in t\<lparr>TVault.Name := name, DisplayName := displayName, FormatedName := formatedName\<rparr>)"

definition BuildSymbol ::
  "string \<Rightarrow> ('tok, 'strat) TVault \<Rightarrow> ('tok, 'strat) TVault" where
  "BuildSymbol metaVaultSymbol t =
     (let symbol = strings_Replace_quote (TVault.Symbol t);
          formatedSymbol = TERC20Token.Symbol (Token t);
          displaySymbol = metaVaultSymbol;
          formatedSymbol = (if \<not> prefix yv formatedSymbol
                            then yv @ formatedSymbol else formatedSymbol);
          formatedSymbol = (if displaySymbol \<noteq> [] \<and> \<not> prefix yv displaySymbol
                            then yv @ displaySymbol else formatedSymbol);
          symbol = SafeString symbol displaySymbol;
          symbol = SafeString symbol formatedSymbol;
          displaySymbol = SafeString displaySymbol symbol
      in t\<lparr>TVault.Symbol := symbol, DisplaySymbol := displaySymbol,
            FormatedSymbol := formatedSymbol\<rparr>)"

subsection \<open>The enrichment methods\<close>

text \<open>
  Modelled from the spec: the curated-metadata store \<open>meta.Store.VaultsFromMeta\<close> lives in
  \<open>external/meta\<close>, which is not part of the sources at hand. The spec gives its interface:
  keyed by chain identifier and address, an entry holds a flag \<open>migrationAvailable\<close> and an
  address \<open>migrationTargetVault\<close>. Whatever else an entry holds is the extension part
  of the record scheme. The store is passed to the method as an argument.
\<close>

record TVaultFromMeta =
  MigrationAvailable :: bool
  MigrationTargetVault :: common_Address

type_synonym 'm VaultsFromMeta =
  "(uint64, (common_Address, 'm TVaultFromMeta_scheme) fmap) fmap"

definition BuildMigration ::
  "'m VaultsFromMeta \<Rightarrow> uint64 \<Rightarrow> ('tok, 'strat) TVault \<Rightarrow> ('tok, 'strat) TVault" where
  "BuildMigration VaultsFromMeta chainID t =
     (let migration = TMigration_zero;
          migration =
            (case lookup2 VaultsFromMeta chainID (FromAddress (TVault.Address t)) of
               None \<Rightarrow> migration
             | Some vaultFromMeta \<Rightarrow>
                 (let migrationAddress = FromAddress (TVault.Address t);
                      migrationAvailable = MigrationAvailable vaultFromMeta;
                      migrationAddress = (if MigrationAvailable vaultFromMeta
                                          then MigrationTargetVault vaultFromMeta
                                          else migrationAddress)
                  in \<lparr>Available = migrationAvailable,
                      TMigration.Address = migrationAddress\<rparr>))
      in t\<lparr>Migration := migration\<rparr>)"

text \<open>
  Modelled from the spec: the analytics store \<open>store.Store.AggregatedVault\<close> lives in
  \<open>common/store\<close>, which is not part of the sources at hand. The spec gives its interface:
  keyed by chain identifier and address, an entry holds \<open>legacyAPY\<close>, of "the full
  APYSnapshot shape", which is the shape of \<open>TAPY\<close>. The store is passed to the method as
  an argument.
\<close>

record TAggregatedVault =
  LegacyAPY :: TAPY

type_synonym 'g AggregatedVault =
  "(uint64, (common_Address, 'g TAggregatedVault_scheme) fmap) fmap"

definition BuildAPY ::
  "'g AggregatedVault \<Rightarrow> uint64 \<Rightarrow> ('tok, 'strat) TVault \<Rightarrow> ('tok, 'strat) TVault" where
  "BuildAPY AggregatedVault chainID t =
     (let apy = TAPY_zero;
          apy =
            (case lookup2 AggregatedVault chainID (FromAddress (TVault.Address t)) of
               None \<Rightarrow> apy
             | Some aggregatedVault \<Rightarrow>
                 \<lparr>TAPY.Type = TAPY.Type (LegacyAPY aggregatedVault),
                  GrossAPR = GrossAPR (LegacyAPY aggregatedVault),
                  NetAPY = NetAPY (LegacyAPY aggregatedVault),
                  Fees =
                    \<lparr>Performance = Performance (Fees (LegacyAPY aggregatedVault)),
                     Withdrawal = Withdrawal (Fees (LegacyAPY aggregatedVault)),
                     TAPYFees.Management =
                       TAPYFees.Management (Fees (LegacyAPY aggregatedVault)),
                     KeepCRV = KeepCRV (Fees (LegacyAPY aggregatedVault)),
                     CvxKeepCRV = CvxKeepCRV (Fees (LegacyAPY aggregatedVault))\<rparr>,
                  Points =
                    \<lparr>WeekAgo = WeekAgo (Points (LegacyAPY aggregatedVault)),
                     MonthAgo = MonthAgo (Points (LegacyAPY aggregatedVault)),
                     TAPYPoints.Inception =
                       TAPYPoints.Inception (Points (LegacyAPY aggregatedVault))\<rparr>,
                  Composite =
                    \<lparr>Boost = Boost (Composite (LegacyAPY aggregatedVault)),
                     PoolAPY = PoolAPY (Composite (LegacyAPY aggregatedVault)),
                     BoostedAPR = BoostedAPR (Composite (LegacyAPY aggregatedVault)),
                     BaseAPR = BaseAPR (Composite (LegacyAPY aggregatedVault)),
                     CvxAPR = CvxAPR (Composite (LegacyAPY aggregatedVault)),
                     RewardsAPR = RewardsAPR (Composite (LegacyAPY aggregatedVault))\<rparr>\<rparr>)
      in t\<lparr>APY := apy\<rparr>)"

subsection \<open>The index and its accessors\<close>

text \<open>
  The package variable \<open>_vaultMap\<close>, from chain identifier to address to vault pointer. The
  accessors only read it, so it is passed to them as an argument.
\<close>

type_synonym vaultMap = "(uint64, (ethcommon_Address, TVault_ptr) fmap) fmap"

text \<open>
  The body of the loop of \<open>ListVaults\<close> appends the visited pointer to the slice, the body
  of the loop of \<open>ListVaultsAddresses\<close> the converted key. A nil slice is the empty list.
\<close>

fun ListVaults_loop ::
  "(ethcommon_Address \<times> TVault_ptr) list \<Rightarrow> TVault_ptr list \<Rightarrow> TVault_ptr list" where
  "ListVaults_loop [] vaults = vaults"
| "ListVaults_loop ((_, vault) # rest) vaults = ListVaults_loop rest (vaults @ [vault])"

fun ListVaultsAddresses_loop ::
  "(ethcommon_Address \<times> TVault_ptr) list \<Rightarrow> common_Address list \<Rightarrow> common_Address list" where
  "ListVaultsAddresses_loop [] addresses = addresses"
| "ListVaultsAddresses_loop ((address, _) # rest) addresses =
     ListVaultsAddresses_loop rest (addresses @ [FromAddress address])"

text \<open>
  The order of a \<open>range\<close> over a map is the runtime's choice, so each accessor is a relation
  between the index, the chain identifier and the slice returned: one result for every
  visiting sequence of \<open>_vaultMap[chainID]\<close>.
\<close>

inductive ListVaults :: "vaultMap \<Rightarrow> uint64 \<Rightarrow> TVault_ptr list \<Rightarrow> bool" where
  ListVaultsI:
    "range_yields (index2 vm chainID) es \<Longrightarrow> ListVaults vm chainID (ListVaults_loop es [])"

inductive ListVaultsAddresses :: "vaultMap \<Rightarrow> uint64 \<Rightarrow> common_Address list \<Rightarrow> bool" where
  ListVaultsAddressesI:
    "range_yields (index2 vm chainID) es \<Longrightarrow>
     ListVaultsAddresses vm chainID (ListVaultsAddresses_loop es [])"

definition FindVault :: "vaultMap \<Rightarrow> uint64 \<Rightarrow> common_Address \<Rightarrow> TVault_ptr \<times> bool" where
  "FindVault vm chainID vaultAddress =
     (case lookup2 vm chainID (ToAddress vaultAddress) of
        None \<Rightarrow> (nil, False)
      | Some token \<Rightarrow> (token, True))"

subsection \<open>Concrete vaults and stores\<close>

text \<open>The zero value \<open>TVault{}\<close>, with a token descriptor that has no further fields.\<close>

definition TVault_zero :: "(unit, unit) TVault" where
  "TVault_zero =
     \<lparr>TVault.Address = 0, Registry = 0, Symbol = [], DisplaySymbol = [],
      FormatedSymbol = [], Name = [], DisplayName = [], FormatedName = [], Icon = [],
      Version = [], Type = [], Inception = 0, Decimals = 0, Endorsed = False,
      Emergency_shutdown = False, PricePerShare = 0,
      Token = \<lparr>TERC20Token.Name = [], TERC20Token.Symbol = []\<rparr>,
      TVL = \<lparr>TotalAssets = None, TotalDelegatedAssets = None, TVLDeposited = 0,
             TVLDelegated = 0, TTVL.TVL = 0, Price = 0\<rparr>,
      APY = TAPY_zero, Strategies = [], Migration = TMigration_zero, Details = None\<rparr>"

text \<open>
  The vault of the spec's naming scenario: address \<open>0xABC\<close>, the raw name \<open>My "Vault"\<close> with
  its two double quotes, no raw symbol, and a token named \<open>Foo Token\<close> with the symbol
  \<open>yUSDC-raw\<close>.
\<close>

definition vault_example :: "(unit, unit) TVault" where
  "vault_example =
     TVault_zero
       \<lparr>TVault.Address := 0xABC,
        TVault.Name := ''My '' @ [quote] @ ''Vault'' @ [quote],
        Token := \<lparr>TERC20Token.Name = ''Foo Token'', TERC20Token.Symbol = ''yUSDC-raw''\<rparr>\<rparr>"

text \<open>
  A curated-metadata store that knows the vault \<open>0xABC\<close> on chain 1 with a migration to
  \<open>0xDEF\<close> available, and on chain 10 with no migration available.
\<close>

definition VaultsFromMeta_example :: "unit VaultsFromMeta" where
  "VaultsFromMeta_example =
     fmap_of_list
       [(1, fmap_of_list
          [(FromAddress 0xABC,
            \<lparr>MigrationAvailable = True, MigrationTargetVault = FromAddress 0xDEF\<rparr>)]),
        (10, fmap_of_list
          [(FromAddress 0xABC,
            \<lparr>MigrationAvailable = False, MigrationTargetVault = FromAddress 0xDEF\<rparr>)])]"

text \<open>
  An analytics store with one entry, for the vault \<open>0xABC\<close> on chain 1. The numbers are bit
  patterns of doubles: \<open>0x3FB999999999999A\<close> is 0.1 and \<open>0x3FC999999999999A\<close> is 0.2.
\<close>

definition APY_example :: TAPY where
  "APY_example =
     \<lparr>TAPY.Type = ''v2:averaged'', GrossAPR = 0x3FC999999999999A,
      NetAPY = 0x3FB999999999999A,
      Fees = \<lparr>Performance = 0x3FC999999999999A, Withdrawal = 0,
               TAPYFees.Management = 0x3FB999999999999A, KeepCRV = 0, CvxKeepCRV = 0\<rparr>,
      Points = \<lparr>WeekAgo = 0x3FB999999999999A, MonthAgo = 0x3FC999999999999A,
                 TAPYPoints.Inception = 0x3FB999999999999A\<rparr>,
      Composite = \<lparr>Boost = 0, PoolAPY = 0, BoostedAPR = 0, BaseAPR = 0,
                    CvxAPR = 0, RewardsAPR = 0\<rparr>\<rparr>"

definition AggregatedVault_example :: "unit AggregatedVault" where
  "AggregatedVault_example =
     fmap_of_list [(1, fmap_of_list [(FromAddress 0xABC, \<lparr>LegacyAPY = APY_example\<rparr>)])]"

text \<open>An index with two vaults on chain 1 and none elsewhere.\<close>

definition vaultMap_example :: vaultMap where
  "vaultMap_example =
     fmap_of_list [(1, fmap_of_list [(0xABC, Ref 0), (0xDEF, Ref 1)])]"

subsection \<open>When a second naming call changes nothing\<close>

text \<open>
  \<open>BuildNames\<close> reads the vault's \<open>Name\<close> and writes it back, so a second call starts from
  the name the first call left. \<open>names_stable m t\<close> is the condition on the curated name
  \<open>m\<close> and the vault \<open>t\<close> before the first call under which the second call finds nothing to
  change. With a curated name: the raw name has a character other than the double quote, or
  the curated name has no double quote, or the curated name is made of double quotes only.
  Without one: the raw name is not empty, and it has no double quote or is made of
  double quotes only.
\<close>

definition names_stable :: "string \<Rightarrow> ('tok, 'strat) TVault \<Rightarrow> bool" where
  "names_stable m t \<longleftrightarrow>
     (if m \<noteq> []
      then strings_Replace_quote (TVault.Name t) \<noteq> [] \<or>
           strings_Replace_quote m = m \<or> strings_Replace_quote m = []
      else TVault.Name t \<noteq> [] \<and>
           (strings_Replace_quote (TVault.Name t) = TVault.Name t \<or>
            strings_Replace_quote (TVault.Name t) = []))"

text \<open>
  The same for \<open>BuildSymbol\<close>: the raw symbol has a character other than the double quote,
  or, with a curated symbol, that has no double quote or is made of double quotes only, or,
  without a curated symbol, the token's symbol has no double quote.
\<close>

definition symbol_stable :: "string \<Rightarrow> ('tok, 'strat) TVault \<Rightarrow> bool" where
  "symbol_stable m t \<longleftrightarrow>
     strings_Replace_quote (TVault.Symbol t) \<noteq> [] \<or>
     (if m \<noteq> [] then strings_Replace_quote m = m \<or> strings_Replace_quote m = []
      else strings_Replace_quote (TERC20Token.Symbol (Token t)) =
           TERC20Token.Symbol (Token t))"

section \<open>Properties of the naming methods\<close>

subsection \<open>Quote stripping\<close>

lemma Replace_quote_Nil: "strings_Replace_quote [] = []"
  by (simp add: strings_Replace_quote_def)

lemma Replace_quote_twice:
  "strings_Replace_quote (strings_Replace_quote s) = strings_Replace_quote s"
  by (simp add: strings_Replace_quote_def)

lemma Replace_quote_yv: "strings_Replace_quote (yv @ s) = yv @ strings_Replace_quote s"
  by (simp add: strings_Replace_quote_def yv_def quote_def)

lemma Replace_quote_prefix_yv:
  assumes "prefix yv s"
  shows "strings_Replace_quote s \<noteq> []"
proof -
  from assms obtain r where "s = yv @ r"
    by (auto simp: prefix_def)
  then have "strings_Replace_quote s = yv @ strings_Replace_quote r"
    by (simp add: Replace_quote_yv)
  then show ?thesis
    by (simp add: yv_def)
qed

lemma Replace_quote_example:
  "strings_Replace_quote (''My '' @ [quote] @ ''Vault'' @ [quote]) = ''My Vault''"
  by (simp add: strings_Replace_quote_def quote_def)

lemma yVault_nonempty: "yVault \<noteq> []"
  by (simp add: yVault_def)

lemma yv_nonempty: "yv \<noteq> []"
  by (simp add: yv_def)

lemma suffix_yVault_appended: "suffix yVault (s @ '' yVault'')"
proof -
  have "s @ '' yVault'' = (s @ '' '') @ yVault"
    by (simp add: yVault_def)
  then show ?thesis
    unfolding suffix_def by blast
qed

lemma not_suffix_yVault_example: "\<not> suffix yVault (''My '' @ [quote] @ ''Vault'' @ [quote])"
  by (simp add: yVault_def quote_def suffix_Cons)

subsection \<open>Outcome of one call\<close>

lemma BuildNames_DisplayName:
  "DisplayName (BuildNames m t) = (if m \<noteq> [] then m else TVault.Name t)"
  by (simp add: BuildNames_def Let_def)

lemma BuildNames_FormatedName:
  "FormatedName (BuildNames m t) =
     (if DisplayName (BuildNames m t) \<noteq> [] \<and> \<not> suffix yVault (DisplayName (BuildNames m t))
      then DisplayName (BuildNames m t) @ '' yVault''
      else if suffix yVault (TERC20Token.Name (Token t)) then TERC20Token.Name (Token t)
      else TERC20Token.Name (Token t) @ '' yVault'')"
  by (simp add: BuildNames_def Let_def)

lemma BuildNames_Name:
  "TVault.Name (BuildNames m t) =
     (if strings_Replace_quote (TVault.Name t) \<noteq> [] then strings_Replace_quote (TVault.Name t)
      else if DisplayName (BuildNames m t) \<noteq> [] then DisplayName (BuildNames m t)
      else FormatedName (BuildNames m t))"
  by (simp add: BuildNames_def Let_def)

lemma BuildNames_Token: "Token (BuildNames m t) = Token t"
  by (simp add: BuildNames_def Let_def)

lemma BuildNames_frame:
  "BuildNames m t =
     t\<lparr>TVault.Name := TVault.Name (BuildNames m t),
       DisplayName := DisplayName (BuildNames m t),
       FormatedName := FormatedName (BuildNames m t)\<rparr>"
  by (simp add: BuildNames_def Let_def)

lemma BuildSymbol_FormatedSymbol:
  "FormatedSymbol (BuildSymbol m t) =
     (if m \<noteq> [] \<and> \<not> prefix yv m then yv @ m
      else if prefix yv (TERC20Token.Symbol (Token t)) then TERC20Token.Symbol (Token t)
      else yv @ TERC20Token.Symbol (Token t))"
  by (simp add: BuildSymbol_def Let_def)

lemma BuildSymbol_Symbol:
  "TVault.Symbol (BuildSymbol m t) =
     (if strings_Replace_quote (TVault.Symbol t) \<noteq> []
      then strings_Replace_quote (TVault.Symbol t)
      else if m \<noteq> [] then m else FormatedSymbol (BuildSymbol m t))"
  by (simp add: BuildSymbol_def Let_def SafeString_def)

lemma BuildSymbol_DisplaySymbol:
  "DisplaySymbol (BuildSymbol m t) = (if m \<noteq> [] then m else TVault.Symbol (BuildSymbol m t))"
  by (simp add: BuildSymbol_def Let_def SafeString_def)

lemma BuildSymbol_Token: "Token (BuildSymbol m t) = Token t"
  by (simp add: BuildSymbol_def Let_def)

lemma BuildSymbol_frame:
  "BuildSymbol m t =
     t\<lparr>TVault.Symbol := TVault.Symbol (BuildSymbol m t),
       DisplaySymbol := DisplaySymbol (BuildSymbol m t),
       FormatedSymbol := FormatedSymbol (BuildSymbol m t)\<rparr>"
  by (simp add: BuildSymbol_def Let_def)

subsection \<open>Prefix and suffix of the formatted strings\<close>

text \<open>
  Claim C3. Whatever the vault and the curated symbol, the formatted symbol left by
  \<open>BuildSymbol\<close> starts with \<open>yv\<close>.
\<close>

theorem BuildSymbol_FormatedSymbol_prefix_yv:
  "prefix yv (FormatedSymbol (BuildSymbol metaVaultSymbol t))"
  by (simp add: BuildSymbol_FormatedSymbol)

text \<open>
  Claim C4. Whatever the vault and the curated name, the formatted name left by
  \<open>BuildNames\<close> ends with \<open>yVault\<close>: either it already did, or \<open>" yVault"\<close> was appended.
\<close>

theorem BuildNames_FormatedName_suffix_yVault:
  "suffix yVault (FormatedName (BuildNames metaVaultName t))"
  by (simp add: BuildNames_FormatedName suffix_yVault_appended)

subsection \<open>The scenario with a quoted raw name\<close>

text \<open>
  Claim C2, as the code has it. For a vault with the raw name \<open>My "Vault"\<close> and a token named
  \<open>Foo Token\<close>, \<open>BuildNames\<close> without a curated name leaves the name \<open>My Vault\<close> and the
  display name \<open>My "Vault"\<close>, quotes kept. The formatted name is built from that display
  name, which is not empty and does not end in \<open>yVault\<close>: it is \<open>My "Vault" yVault\<close>, and
  the token's name is not used.
\<close>

theorem BuildNames_quoted_scenario:
  assumes "TVault.Name t = ''My '' @ [quote] @ ''Vault'' @ [quote]"
    and "TERC20Token.Name (Token t) = ''Foo Token''"
  shows "TVault.Name (BuildNames [] t) = ''My Vault'' \<and>
         FormatedName (BuildNames [] t) = ''My '' @ [quote] @ ''Vault'' @ [quote] @ '' yVault'' \<and>
         DisplayName (BuildNames [] t) = ''My '' @ [quote] @ ''Vault'' @ [quote]"
proof -
  have d: "DisplayName (BuildNames [] t) = ''My '' @ [quote] @ ''Vault'' @ [quote]"
    using assms(1) by (simp add: BuildNames_DisplayName)
  have n: "TVault.Name (BuildNames [] t) = ''My Vault''"
    using Replace_quote_example assms(1) by (simp add: BuildNames_Name)
  have "FormatedName (BuildNames [] t) = DisplayName (BuildNames [] t) @ '' yVault''"
    using not_suffix_yVault_example unfolding BuildNames_FormatedName d by simp
  with d n show ?thesis
    by simp
qed

theorem BuildNames_quoted_scenario_witness:
  "TVault.Name vault_example = ''My '' @ [quote] @ ''Vault'' @ [quote] \<and>
   TERC20Token.Name (Token vault_example) = ''Foo Token'' \<and>
   TVault.Name (BuildNames [] vault_example) = ''My Vault'' \<and>
   FormatedName (BuildNames [] vault_example) =
     ''My '' @ [quote] @ ''Vault'' @ [quote] @ '' yVault'' \<and>
   DisplayName (BuildNames [] vault_example) = ''My '' @ [quote] @ ''Vault'' @ [quote]"
proof -
  have n: "TVault.Name vault_example = ''My '' @ [quote] @ ''Vault'' @ [quote]"
    by (simp add: vault_example_def)
  have k: "TERC20Token.Name (Token vault_example) = ''Foo Token''"
    by (simp add: vault_example_def)
  from n k BuildNames_quoted_scenario [OF n k] show ?thesis
    by (intro conjI) simp_all
qed

text \<open>
  The formatted name of that scenario is not \<open>Foo Token yVault\<close>: the sixth byte of the one
  is a quote, of the other a letter.
\<close>

theorem BuildNames_quoted_scenario_counterexample:
  "\<not> (TVault.Name (BuildNames [] vault_example) = ''My Vault'' \<and>
      FormatedName (BuildNames [] vault_example) = ''Foo Token yVault'' \<and>
      DisplayName (BuildNames [] vault_example) = ''My '' @ [quote] @ ''Vault'' @ [quote])"
proof -
  have "FormatedName (BuildNames [] vault_example) =
          ''My '' @ [quote] @ ''Vault'' @ [quote] @ '' yVault''"
    using not_suffix_yVault_example
    by (simp add: BuildNames_FormatedName BuildNames_DisplayName vault_example_def)
  then have "FormatedName (BuildNames [] vault_example) \<noteq> ''Foo Token yVault''"
    by simp
  then show ?thesis
    by blast
qed

subsection \<open>Calling a naming method twice\<close>

lemma BuildNames_twice_fields:
  "BuildNames m (BuildNames m t) = BuildNames m t \<longleftrightarrow>
   TVault.Name (BuildNames m (BuildNames m t)) = TVault.Name (BuildNames m t) \<and>
   DisplayName (BuildNames m (BuildNames m t)) = DisplayName (BuildNames m t) \<and>
   FormatedName (BuildNames m (BuildNames m t)) = FormatedName (BuildNames m t)"
  (is "?same \<longleftrightarrow> ?fields")
proof
  assume ?same
  then show ?fields by simp
next
  assume f: ?fields
  have "BuildNames m (BuildNames m t) =
          (BuildNames m t)
            \<lparr>TVault.Name := TVault.Name (BuildNames m t),
             DisplayName := DisplayName (BuildNames m t),
             FormatedName := FormatedName (BuildNames m t)\<rparr>"
    using BuildNames_frame [of m "BuildNames m t"] f by simp
  then show ?same by simp
qed

lemma BuildSymbol_twice_fields:
  "BuildSymbol m (BuildSymbol m t) = BuildSymbol m t \<longleftrightarrow>
   TVault.Symbol (BuildSymbol m (BuildSymbol m t)) = TVault.Symbol (BuildSymbol m t) \<and>
   DisplaySymbol (BuildSymbol m (BuildSymbol m t)) = DisplaySymbol (BuildSymbol m t) \<and>
   FormatedSymbol (BuildSymbol m (BuildSymbol m t)) = FormatedSymbol (BuildSymbol m t)"
  (is "?same \<longleftrightarrow> ?fields")
proof
  assume ?same
  then show ?fields by simp
next
  assume f: ?fields
  have "BuildSymbol m (BuildSymbol m t) =
          (BuildSymbol m t)
            \<lparr>TVault.Symbol := TVault.Symbol (BuildSymbol m t),
             DisplaySymbol := DisplaySymbol (BuildSymbol m t),
             FormatedSymbol := FormatedSymbol (BuildSymbol m t)\<rparr>"
    using BuildSymbol_frame [of m "BuildSymbol m t"] f by simp
  then show ?same by simp
qed

lemma BuildNames_twice:
  "BuildNames m (BuildNames m t) = BuildNames m t \<longleftrightarrow> names_stable m t"
proof (cases "m = []")
  case False
  then show ?thesis
    unfolding BuildNames_twice_fields
    by (simp add: BuildNames_Name BuildNames_DisplayName BuildNames_FormatedName
        BuildNames_Token names_stable_def Replace_quote_twice)
next
  case True
  then show ?thesis
    unfolding BuildNames_twice_fields
    by (auto simp add: BuildNames_Name BuildNames_DisplayName BuildNames_FormatedName
        BuildNames_Token names_stable_def Replace_quote_twice Replace_quote_Nil
        yVault_nonempty)
qed

lemma BuildSymbol_twice:
  "BuildSymbol m (BuildSymbol m t) = BuildSymbol m t \<longleftrightarrow> symbol_stable m t"
proof (cases "m = []")
  case False
  then show ?thesis
    unfolding BuildSymbol_twice_fields
    by (auto simp add: BuildSymbol_Symbol BuildSymbol_DisplaySymbol
        BuildSymbol_FormatedSymbol BuildSymbol_Token symbol_stable_def Replace_quote_twice)
next
  case True
  then show ?thesis
    unfolding BuildSymbol_twice_fields
    by (auto simp add: BuildSymbol_Symbol BuildSymbol_DisplaySymbol
        BuildSymbol_FormatedSymbol BuildSymbol_Token symbol_stable_def Replace_quote_twice
        Replace_quote_Nil yv_nonempty Replace_quote_yv Replace_quote_prefix_yv)
qed

text \<open>
  Claim C1, as the code has it. Calling \<open>BuildNames\<close> twice with the same curated name leaves
  the same vault as calling it once exactly when \<open>names_stable\<close> holds of the curated name and
  the vault before the first call, and calling \<open>BuildSymbol\<close> twice with the same curated
  symbol leaves the same vault as calling it once exactly when \<open>symbol_stable\<close> holds.
\<close>

theorem BuildNames_BuildSymbol_twice:
  "(BuildNames metaVaultName (BuildNames metaVaultName t) = BuildNames metaVaultName t
      \<longleftrightarrow> names_stable metaVaultName t) \<and>
   (BuildSymbol metaVaultSymbol (BuildSymbol metaVaultSymbol t) = BuildSymbol metaVaultSymbol t
      \<longleftrightarrow> symbol_stable metaVaultSymbol t)"
  by (simp add: BuildNames_twice BuildSymbol_twice)

theorem BuildNames_BuildSymbol_twice_witness:
  "names_stable ''Curated'' vault_example \<and>
   BuildNames ''Curated'' (BuildNames ''Curated'' vault_example) =
     BuildNames ''Curated'' vault_example \<and>
   symbol_stable ''USDC'' vault_example \<and>
   BuildSymbol ''USDC'' (BuildSymbol ''USDC'' vault_example) =
     BuildSymbol ''USDC'' vault_example"
proof -
  have n: "names_stable ''Curated'' vault_example"
    by (simp add: names_stable_def vault_example_def strings_Replace_quote_def quote_def)
  have s: "symbol_stable ''USDC'' vault_example"
    by (simp add: symbol_stable_def strings_Replace_quote_def quote_def)
  from n s
    BuildNames_BuildSymbol_twice [of "''Curated''" vault_example "''USDC''"]
  show ?thesis
    by blast
qed

text \<open>
  Without a condition the statement fails. On the vault of the scenario with no curated name,
  the first call of \<open>BuildNames\<close> leaves the display name \<open>My "Vault"\<close> and the second the
  display name \<open>My Vault\<close>. With the curated symbol \<open>"USDC"\<close>, quotes included, the first call
  of \<open>BuildSymbol\<close> leaves the symbol \<open>"USDC"\<close> and the second the symbol \<open>USDC\<close>.
\<close>

theorem BuildNames_BuildSymbol_twice_counterexample:
  "BuildNames [] (BuildNames [] vault_example) \<noteq> BuildNames [] vault_example \<and>
   BuildSymbol ([quote] @ ''USDC'' @ [quote])
       (BuildSymbol ([quote] @ ''USDC'' @ [quote]) vault_example) \<noteq>
     BuildSymbol ([quote] @ ''USDC'' @ [quote]) vault_example"
proof
  have "DisplayName (BuildNames [] vault_example) = ''My '' @ [quote] @ ''Vault'' @ [quote]"
    by (simp add: BuildNames_DisplayName vault_example_def)
  moreover have "DisplayName (BuildNames [] (BuildNames [] vault_example)) = ''My Vault''"
    using Replace_quote_example
    by (simp add: BuildNames_DisplayName BuildNames_Name vault_example_def)
  ultimately have "DisplayName (BuildNames [] (BuildNames [] vault_example)) \<noteq>
      DisplayName (BuildNames [] vault_example)"
    by (simp add: quote_def)
  then show "BuildNames [] (BuildNames [] vault_example) \<noteq> BuildNames [] vault_example"
    by auto
next
  let ?m = "[quote] @ ''USDC'' @ [quote]"
  have r: "strings_Replace_quote ?m = ''USDC''"
    by (simp add: strings_Replace_quote_def quote_def)
  have 1: "TVault.Symbol (BuildSymbol ?m vault_example) = ?m"
    by (simp add: BuildSymbol_Symbol vault_example_def TVault_zero_def Replace_quote_Nil)
  have "TVault.Symbol (BuildSymbol ?m (BuildSymbol ?m vault_example)) = ''USDC''"
    unfolding BuildSymbol_Symbol [of ?m "BuildSymbol ?m vault_example"] 1 r by simp
  with 1 have "TVault.Symbol (BuildSymbol ?m (BuildSymbol ?m vault_example)) \<noteq>
      TVault.Symbol (BuildSymbol ?m vault_example)"
    by (simp add: quote_def)
  then show "BuildSymbol ?m (BuildSymbol ?m vault_example) \<noteq> BuildSymbol ?m vault_example"
    by auto
qed

section \<open>Properties of the enrichment methods\<close>

lemma vault_example_Address: "TVault.Address vault_example = 0xABC"
  by (simp add: vault_example_def)

text \<open>
  Claim C5. \<open>BuildMigration\<close> sets the migration status by what the curated-metadata store
  holds for the chain and the vault's address: with no entry, the zero value (not available,
  zero address); with an entry that marks the migration unavailable, not available and the
  vault's own address; with an entry that marks it available, available and the entry's
  target vault.
\<close>

theorem BuildMigration_sets_Migration:
  "(lookup2 VaultsFromMeta chainID (FromAddress (TVault.Address t)) = None \<longrightarrow>
      Migration (BuildMigration VaultsFromMeta chainID t) =
        \<lparr>Available = False, TMigration.Address = FromAddress 0\<rparr>) \<and>
   (\<forall>e. lookup2 VaultsFromMeta chainID (FromAddress (TVault.Address t)) = Some e \<and>
        \<not> MigrationAvailable e \<longrightarrow>
      Migration (BuildMigration VaultsFromMeta chainID t) =
        \<lparr>Available = False, TMigration.Address = FromAddress (TVault.Address t)\<rparr>) \<and>
   (\<forall>e. lookup2 VaultsFromMeta chainID (FromAddress (TVault.Address t)) = Some e \<and>
        MigrationAvailable e \<longrightarrow>
      Migration (BuildMigration VaultsFromMeta chainID t) =
        \<lparr>Available = True, TMigration.Address = MigrationTargetVault e\<rparr>)"
  by (simp add: BuildMigration_def TMigration_zero_def Let_def)

theorem BuildMigration_sets_Migration_witness:
  "Migration (BuildMigration VaultsFromMeta_example 5 vault_example) =
     \<lparr>Available = False, TMigration.Address = FromAddress 0\<rparr> \<and>
   Migration (BuildMigration VaultsFromMeta_example 10 vault_example) =
     \<lparr>Available = False, TMigration.Address = FromAddress 0xABC\<rparr> \<and>
   Migration (BuildMigration VaultsFromMeta_example 1 vault_example) =
     \<lparr>Available = True, TMigration.Address = FromAddress 0xDEF\<rparr>"
proof -
  note a = vault_example_Address
  have miss: "lookup2 VaultsFromMeta_example 5 (FromAddress (TVault.Address vault_example)) = None"
    by (simp add: a lookup2_def index2_def VaultsFromMeta_example_def)
  have stay: "lookup2 VaultsFromMeta_example 10 (FromAddress (TVault.Address vault_example)) =
      Some \<lparr>MigrationAvailable = False, MigrationTargetVault = FromAddress 0xDEF\<rparr>"
    by (simp add: a lookup2_def index2_def VaultsFromMeta_example_def)
  have move: "lookup2 VaultsFromMeta_example 1 (FromAddress (TVault.Address vault_example)) =
      Some \<lparr>MigrationAvailable = True, MigrationTargetVault = FromAddress 0xDEF\<rparr>"
    by (simp add: a lookup2_def index2_def VaultsFromMeta_example_def)
  from miss stay move a
    BuildMigration_sets_Migration [of VaultsFromMeta_example 5 vault_example]
    BuildMigration_sets_Migration [of VaultsFromMeta_example 10 vault_example]
    BuildMigration_sets_Migration [of VaultsFromMeta_example 1 vault_example]
  show ?thesis
    by simp
qed

text \<open>
  Claim C6. \<open>BuildAPY\<close> has no failing branch: the lookup in the analytics store reports a
  miss instead of failing, and the method returns a vault in either case. With no entry for
  the chain and the vault's address the APY snapshot is the all-zero value; with an entry it
  is the entry's \<open>LegacyAPY\<close>, every field of type, gross APR, net APY, points, composite
  and fees as it was in the store.
\<close>

theorem BuildAPY_sets_APY:
  "(lookup2 AggregatedVault chainID (FromAddress (TVault.Address t)) = None \<longrightarrow>
      APY (BuildAPY AggregatedVault chainID t) = TAPY_zero) \<and>
   (\<forall>e. lookup2 AggregatedVault chainID (FromAddress (TVault.Address t)) = Some e \<longrightarrow>
      APY (BuildAPY AggregatedVault chainID t) = LegacyAPY e)"
  by (simp add: BuildAPY_def Let_def)

theorem BuildAPY_sets_APY_witness:
  "APY (BuildAPY AggregatedVault_example 5 vault_example) = TAPY_zero \<and>
   APY (BuildAPY AggregatedVault_example 1 vault_example) = APY_example"
proof -
  note a = vault_example_Address
  have miss: "lookup2 AggregatedVault_example 5 (FromAddress (TVault.Address vault_example)) = None"
    by (simp add: a lookup2_def index2_def AggregatedVault_example_def)
  have hit: "lookup2 AggregatedVault_example 1 (FromAddress (TVault.Address vault_example)) =
      Some \<lparr>LegacyAPY = APY_example\<rparr>"
    by (simp add: a lookup2_def index2_def AggregatedVault_example_def)
  from miss hit
    BuildAPY_sets_APY [of AggregatedVault_example 5 vault_example]
    BuildAPY_sets_APY [of AggregatedVault_example 1 vault_example]
  show ?thesis
    by simp
qed

text \<open>
  Claim C10. \<open>BuildMigration\<close> changes nothing but the field \<open>Migration\<close>, and \<open>BuildAPY\<close>
  nothing but the field \<open>APY\<close>: putting the old value of that one field back gives the vault
  as it was before the call, in all its fields.
\<close>

theorem BuildMigration_BuildAPY_frame:
  "(BuildMigration VaultsFromMeta chainID t)\<lparr>Migration := Migration t\<rparr> = t \<and>
   (BuildAPY AggregatedVault chainID' t)\<lparr>APY := APY t\<rparr> = t"
  by (simp add: BuildMigration_def BuildAPY_def Let_def)

section \<open>Properties of the index\<close>

subsection \<open>Loops and visiting sequences\<close>

lemma ListVaults_loop_eq: "ListVaults_loop es vaults = vaults @ map snd es"
  by (induction es vaults rule: ListVaults_loop.induct) simp_all

lemma ListVaultsAddresses_loop_eq:
  "ListVaultsAddresses_loop es addresses = addresses @ map (\<lambda>e. FromAddress (fst e)) es"
  by (induction es addresses rule: ListVaultsAddresses_loop.induct) simp_all

lemma range_yields_keys:
  assumes "range_yields m es"
  shows "set (map fst es) = fmdom' m" and "length es = card (fmdom' m)"
proof -
  from assms have d: "distinct (map fst es)" and m: "fmap_of_list es = m"
    by (simp_all add: range_yields_def)
  have "fmdom (fmap_of_list es) = fset_of_list (map fst es)"
    by (rule fmdom_fmap_of_list)
  then have "fmdom' m = fset (fset_of_list (map fst es))"
    unfolding m fmdom'_alt_def by (rule arg_cong)
  then show k: "set (map fst es) = fmdom' m"
    unfolding fset_of_list.rep_eq by (rule sym)
  from d have "card (set (map fst es)) = length (map fst es)"
    by (rule distinct_card)
  with k show "length es = card (fmdom' m)"
    by simp
qed

lemma map_of_graph:
  "map_of (map (\<lambda>k. (k, f k)) ks) k = (if k \<in> set ks then Some (f k) else None)"
  by (induction ks) simp_all

text \<open>Every map has a visiting sequence, so a \<open>range\<close> loop over it ends.\<close>

lemma range_yields_exists: "\<exists>es. range_yields m es"
proof -
  obtain ks where ks: "set ks = fmdom' m" "distinct ks"
    using finite_distinct_list [of "fmdom' m"] by (auto simp: fmdom'_alt_def)
  define es where "es = map (\<lambda>k. (k, the (fmlookup m k))) ks"
  have keys: "map fst es = ks"
    by (simp add: es_def comp_def)
  have "fmlookup (fmap_of_list es) k = fmlookup m k" for k
  proof (cases "k \<in> set ks")
    case True
    then have "map_of es k = Some (the (fmlookup m k))"
      by (simp add: es_def map_of_graph)
    moreover from True ks have "fmlookup m k \<noteq> None"
      using fmdom'_notI [of m k] by blast
    ultimately show ?thesis
      by (auto simp: fmlookup_of_list)
  next
    case False
    then have "map_of es k = None"
      by (simp add: es_def map_of_graph)
    moreover from False ks have "fmlookup m k = None"
      using fmdom'_notD [of k m] by blast
    ultimately show ?thesis
      by (simp add: fmlookup_of_list)
  qed
  then have "fmap_of_list es = m"
    by (rule fmap_ext)
  with keys ks show ?thesis
    unfolding range_yields_def by auto
qed

lemma vaultMap_example_order1:
  "range_yields (index2 vaultMap_example 1) [(0xABC, Ref 0), (0xDEF, Ref 1)]"
  by (simp add: range_yields_def index2_def vaultMap_example_def)

lemma vaultMap_example_order2:
  "range_yields (index2 vaultMap_example 1) [(0xDEF, Ref 1), (0xABC, Ref 0)]"
proof -
  have "fmap_of_list [(0xDEF, Ref 1), (0xABC, Ref 0)] =
        fmap_of_list [(0xABC :: ethcommon_Address, Ref 0), (0xDEF, Ref 1)]"
    by (rule fmap_ext) simp
  then show ?thesis
    by (simp add: range_yields_def index2_def vaultMap_example_def)
qed

subsection \<open>Listing\<close>

text \<open>
  Claim C8. For every index and chain identifier \<open>ListVaults\<close> and \<open>ListVaultsAddresses\<close>
  return; the slice \<open>ListVaults\<close> returns is as long as the number of addresses the index
  holds for the chain, and the slice \<open>ListVaultsAddresses\<close> returns holds exactly those
  addresses, each once, in whatever order.
\<close>

theorem ListVaults_ListVaultsAddresses_cover:
  "(\<exists>vaults. ListVaults vm chainID vaults) \<and>
   (\<exists>addresses. ListVaultsAddresses vm chainID addresses) \<and>
   (\<forall>vaults. ListVaults vm chainID vaults \<longrightarrow>
      length vaults = card (fmdom' (index2 vm chainID))) \<and>
   (\<forall>addresses. ListVaultsAddresses vm chainID addresses \<longrightarrow>
      set addresses = FromAddress ` fmdom' (index2 vm chainID) \<and> distinct addresses)"
proof (intro conjI allI impI)
  obtain es where es: "range_yields (index2 vm chainID) es"
    using range_yields_exists by blast
  then show "\<exists>vaults. ListVaults vm chainID vaults"
    by (blast intro: ListVaultsI)
  from es show "\<exists>addresses. ListVaultsAddresses vm chainID addresses"
    by (blast intro: ListVaultsAddressesI)
next
  fix vaults
  assume "ListVaults vm chainID vaults"
  then obtain es where "range_yields (index2 vm chainID) es" "vaults = ListVaults_loop es []"
    by (auto elim: ListVaults.cases)
  then show "length vaults = card (fmdom' (index2 vm chainID))"
    by (simp add: ListVaults_loop_eq range_yields_keys(2))
next
  fix addresses
  assume "ListVaultsAddresses vm chainID addresses"
  then obtain es where es: "range_yields (index2 vm chainID) es"
    and a: "addresses = ListVaultsAddresses_loop es []"
    by (auto elim: ListVaultsAddresses.cases)
  from a have m: "addresses = map FromAddress (map fst es)"
    by (simp add: ListVaultsAddresses_loop_eq)
  then show "set addresses = FromAddress ` fmdom' (index2 vm chainID)"
    using range_yields_keys(1) [OF es] by (metis set_map)
  from es have "distinct (map fst es)"
    by (simp add: range_yields_def)
  with m show "distinct addresses"
    by (simp add: distinct_map inj_on_def)
qed

theorem ListVaults_ListVaultsAddresses_cover_witness:
  "ListVaults vaultMap_example 1 [Ref 0, Ref 1] \<and>
   length [Ref 0, Ref 1] = card (fmdom' (index2 vaultMap_example 1)) \<and>
   ListVaultsAddresses vaultMap_example 1 [FromAddress 0xDEF, FromAddress 0xABC] \<and>
   set [FromAddress 0xDEF, FromAddress 0xABC] =
     FromAddress ` fmdom' (index2 vaultMap_example 1)"
proof -
  have v: "ListVaults vaultMap_example 1 [Ref 0, Ref 1]"
    using ListVaultsI [OF vaultMap_example_order1] by simp
  have a: "ListVaultsAddresses vaultMap_example 1 [FromAddress 0xDEF, FromAddress 0xABC]"
    using ListVaultsAddressesI [OF vaultMap_example_order2] by simp
  from v a ListVaults_ListVaultsAddresses_cover [of vaultMap_example 1] show ?thesis
    by blast
qed

subsection \<open>Finding\<close>

lemma vaultMap_example_lookups:
  "lookup2 vaultMap_example 1 (ToAddress (FromAddress 0x123)) = None"
  "lookup2 vaultMap_example 2 (ToAddress (FromAddress 0xABC)) = None"
  "lookup2 vaultMap_example 1 (ToAddress (FromAddress 0xDEF)) = Some (Ref 1)"
  by (simp_all add: lookup2_def index2_def vaultMap_example_def)

text \<open>
  Claim C7. \<open>FindVault\<close> has no failing branch. When the index holds no entry for the chain
  and the address it returns \<open>nil\<close> and \<open>false\<close>; when it holds one, it returns the very
  pointer the index holds, and \<open>true\<close>.
\<close>

theorem FindVault_miss_and_hit:
  "(lookup2 vm chainID (ToAddress vaultAddress) = None \<longrightarrow>
      FindVault vm chainID vaultAddress = (nil, False)) \<and>
   (\<forall>vault. lookup2 vm chainID (ToAddress vaultAddress) = Some vault \<longrightarrow>
      FindVault vm chainID vaultAddress = (vault, True))"
  by (simp add: FindVault_def)

theorem FindVault_miss_and_hit_witness:
  "FindVault vaultMap_example 1 (FromAddress 0x123) = (nil, False) \<and>
   FindVault vaultMap_example 2 (FromAddress 0xABC) = (nil, False) \<and>
   FindVault vaultMap_example 1 (FromAddress 0xDEF) = (Ref 1, True)"
  using vaultMap_example_lookups
    FindVault_miss_and_hit [of vaultMap_example 1 "FromAddress 0x123"]
    FindVault_miss_and_hit [of vaultMap_example 2 "FromAddress 0xABC"]
    FindVault_miss_and_hit [of vaultMap_example 1 "FromAddress 0xDEF"]
  by blast

text \<open>
  Claim C9. Whenever \<open>FindVault\<close> reports \<open>false\<close>, the pointer it returns is \<open>nil\<close>.
\<close>

theorem FindVault_not_found_nil:
  "snd (FindVault vm chainID vaultAddress) = False \<Longrightarrow>
   fst (FindVault vm chainID vaultAddress) = nil"
  by (auto simp: FindVault_def split: option.splits)

theorem FindVault_not_found_nil_witness:
  "snd (FindVault vaultMap_example 1 (FromAddress 0x123)) = False \<and>
   fst (FindVault vaultMap_example 1 (FromAddress 0x123)) = nil"
proof -
  have f: "snd (FindVault vaultMap_example 1 (FromAddress 0x123)) = False"
    by (simp add: FindVault_def lookup2_def index2_def vaultMap_example_def)
  from f FindVault_not_found_nil [OF f] show ?thesis
    by (rule conjI)
qed

end
